theory Spec2Isabelle
  imports Complex_Main "HOL-Library.Sublist" "HOL-Library.Multiset"
begin

section \<open>Library operations the components rely on\<close>

text \<open>
  The components are TypeScript. A JavaScript number that only ever holds an index or a
  comparator result is an \<open>int\<close> or a \<open>rat\<close>; a \<open>BigNumber\<close> (an arbitrary-precision
  decimal) is a \<open>rat\<close>, and \<open>toNumber\<close> is taken to be exact.
\<close>

type_synonym BigNumber = rat

text \<open>\<open>Array.prototype.findIndex\<close>: the first index whose element satisfies the
  predicate, \<open>-1\<close> when there is none.\<close>

fun findIndex :: "('a \<Rightarrow> bool) \<Rightarrow> 'a list \<Rightarrow> int" where
  "findIndex P [] = -1"
| "findIndex P (x # xs) =
     (if P x then 0
      else (let i = findIndex P xs in if i < 0 then -1 else i + 1))"

text \<open>\<open>Array.prototype.indexOf\<close>: the first index holding a strictly equal element,
  \<open>-1\<close> when there is none.\<close>

definition indexOf :: "'a list \<Rightarrow> 'a \<Rightarrow> int" where
  "indexOf xs x = findIndex (\<lambda>y. y = x) xs"

text \<open>\<open>Array.prototype.slice(start, end)\<close>: a negative index counts from the end of the
  array, every index is clamped to the array, and an omitted \<open>end\<close> is the length.\<close>

definition relativeIndex :: "nat \<Rightarrow> int \<Rightarrow> nat" where
  "relativeIndex len i = (if i < 0 then nat (max (int len + i) 0) else min (nat i) len)"

definition slice :: "'a list \<Rightarrow> int \<Rightarrow> int option \<Rightarrow> 'a list" where
  "slice xs start end =
     (let len = length xs;
          k = relativeIndex len start;
          final = (case end of None \<Rightarrow> len | Some e \<Rightarrow> relativeIndex len e)
      in take (final - k) (drop k xs))"

section \<open>Array.prototype.sort\<close>

text \<open>
  \<open>xs.sort(comparator)\<close> is specified by ECMAScript as a stable sort: \<open>a\<close> is placed before
  \<open>b\<close> when \<open>comparator(a, b) < 0\<close>, and elements that compare as equal keep their order.
  For a consistent comparator that fixes the result, so any stable sort computes it; the
  model is the stable insertion sort. (For an inconsistent comparator ECMAScript leaves
  the order to the implementation.)
\<close>

fun insertSorted :: "('a \<Rightarrow> 'a \<Rightarrow> rat) \<Rightarrow> 'a \<Rightarrow> 'a list \<Rightarrow> 'a list" where
  "insertSorted comparator x [] = [x]"
| "insertSorted comparator x (y # ys) =
     (if comparator x y \<le> 0 then x # y # ys else y # insertSorted comparator x ys)"

definition sortWith :: "('a \<Rightarrow> 'a \<Rightarrow> rat) \<Rightarrow> 'a list \<Rightarrow> 'a list" where
  "sortWith comparator xs = foldr (insertSorted comparator) xs []"


section \<open>NftGallery: the data\<close>

text \<open>
  The types of the gallery are declared outside the source tree; the records hold the
  fields the component reads. \<open>NftData\<close> is what the component calls \<open>data\<close>: an \<open>Nft\<close>
  without its two prices. A field that may be \<open>null\<close> is an option. Where two records
  have a field of the same name, the qualified name (\<open>GalleryNft.priceUsd\<close>) tells them
  apart.
\<close>

record NftCollectionInfo =
  name :: "string option"

record NftData =
  tokenIdentifier :: string
  name :: "string option"
  collection :: NftCollectionInfo

record Nft = NftData +
  priceEth :: BigNumber
  priceUsd :: BigNumber

record GalleryNft = NftData +
  priceInAsset :: BigNumber
  priceAsset :: string
  priceUsd :: BigNumber
  address :: string

record NftPrice =
  asset :: string
  manuallyInput :: bool
  priceAsset :: string
  priceInAsset :: BigNumber
  usdPrice :: BigNumber

record GeneralAccount =
  address :: string

text \<open>\<open>Nfts\<close> is an object from account address to the NFTs of the account; \<open>for ... in\<close>
  visits its keys in insertion order, so it is the list of its entries in that order.\<close>

type_synonym Nfts = "(string \<times> Nft list) list"

section \<open>NftGallery: the gallery items with their prices\<close>

text \<open>The body of the inner loop of \<open>nfts\<close>: the gallery item of one NFT of one account.\<close>

definition galleryNft :: "NftPrice list \<Rightarrow> string \<Rightarrow> Nft \<Rightarrow> GalleryNft" where
  "galleryNft prices addr nft =
     (let price = find (\<lambda>p. NftPrice.asset p = tokenIdentifier nft) prices
      in if price \<noteq> None \<and> manuallyInput (the price)
         then \<lparr>tokenIdentifier = tokenIdentifier nft,
               NftData.name = NftData.name nft,
               collection = collection nft,
               GalleryNft.priceInAsset = NftPrice.priceInAsset (the price),
               GalleryNft.priceAsset = NftPrice.priceAsset (the price),
               GalleryNft.priceUsd = usdPrice (the price),
               GalleryNft.address = addr\<rparr>
         else \<lparr>tokenIdentifier = tokenIdentifier nft,
               NftData.name = NftData.name nft,
               collection = collection nft,
               GalleryNft.priceInAsset = priceEth nft,
               GalleryNft.priceAsset = ''ETH'',
               GalleryNft.priceUsd = Nft.priceUsd nft,
               GalleryNft.address = addr\<rparr>)"

text \<open>The two loops push onto \<open>allNfts\<close>; \<open>perAccount\<close> is \<open>null\<close> until the NFTs are
  fetched.\<close>

definition nfts :: "Nfts option \<Rightarrow> NftPrice list \<Rightarrow> GalleryNft list" where
  "nfts perAccount prices =
     (case perAccount of
        None \<Rightarrow> []
      | Some addresses \<Rightarrow>
          foldl (\<lambda>allNfts (addr, addressNfts).
                   foldl (\<lambda>allNfts nft. allNfts @ [galleryNft prices addr nft])
                     allNfts addressNfts)
            [] addresses)"

section \<open>NftGallery: sorting and filtering\<close>
















section \<open>UnderlyingTokenManager\<close>

text \<open>An \<open>UnderlyingToken\<close>; \<open>EvmTokenKind\<close> is a string enum, so a kind is the string
  it holds at run time.\<close>

record UnderlyingToken =
  address :: string
  tokenKind :: string
  weight :: string

text \<open>\<open>addToken\<close> reads the prop \<open>value\<close> (here \<open>tokens\<close>) and the three form fields, and
  emits the edited copy of the list.\<close>

definition addToken ::
  "UnderlyingToken list \<Rightarrow> string \<Rightarrow> string \<Rightarrow> string \<Rightarrow> UnderlyingToken list" where
  "addToken tokens underlyingAddress kind underlyingWeight =
     (let underlyingTokens = tokens;
          index = findIndex (\<lambda>t. address t = underlyingAddress) underlyingTokens;
          token = \<lparr>address = underlyingAddress, tokenKind = kind, weight = underlyingWeight\<rparr>
      in if index \<ge> 0 then underlyingTokens[nat index := token]
         else underlyingTokens @ [token])"

definition deleteToken :: "UnderlyingToken list \<Rightarrow> string \<Rightarrow> UnderlyingToken list" where
  "deleteToken tokens addr =
     (let underlyingTokens = tokens
      in filter (\<lambda>t. address t \<noteq> addr) underlyingTokens)"

section \<open>TagFilter\<close>

definition remove :: "string list \<Rightarrow> string \<Rightarrow> string list" where
  "remove tags tag =
     (let index = indexOf tags tag
      in slice tags 0 (Some index) @ slice tags (index + 1) None)"

section \<open>Overview (DeFi protocol summary)\<close>

text \<open>Of a summary the component sorts the \<open>assets\<close>, reading \<open>balance.usdValue\<close> of each;
  the records hold the fields that are read, any further field is in the record's
  extension.\<close>

record Balance =
  amount :: BigNumber
  usdValue :: BigNumber

record DefiAsset =
  asset :: string
  balance :: Balance




section \<open>Default settings\<close>

text \<open>The constants of \<open>Defaults\<close> are declared outside the source tree; the factory
  takes them as a parameter. A \<open>Currency\<close> is a type parameter.\<close>

record Defaults =
  FLOATING_PRECISION :: int
  KSM_RPC_ENDPOINT :: string
  DOT_RPC_ENDPOINT :: string
  BALANCE_SAVE_FREQUENCY :: int
  DEFAULT_DATE_DISPLAY_FORMAT :: string
  ANONYMOUS_USAGE_ANALYTICS :: bool
  BTC_DERIVATION_GAP_LIMIT :: int
  DISPLAY_DATE_IN_LOCALTIME :: bool

record 'currency GeneralSettings =
  uiFloatingPrecision :: int
  ksmRpcEndpoint :: string
  dotRpcEndpoint :: string
  balanceSaveFrequency :: int
  dateDisplayFormat :: string
  submitUsageAnalytics :: bool
  mainCurrency :: 'currency
  activeModules :: "string list"
  btcDerivationGapLimit :: int
  displayDateInLocaltime :: bool
  currentPriceOracles :: "string list"
  historicalPriceOracles :: "string list"
  ssfGraphMultiplier :: int
  inferZeroTimedBalances :: bool
  nonSyncingExchanges :: "(string \<times> string) list"
  treatEth2AsEth :: bool
  addressNamePriority :: "string list"

text \<open>The enum \<open>CostBasisMethod\<close> is declared outside the source tree; the factory names
  its member \<open>FIFO\<close>.\<close>

datatype CostBasisMethod = FIFO | LIFO | HIFO | ACB

record AccountingSettings =
  pnlCsvHaveSummary :: bool
  pnlCsvWithFormulas :: bool
  includeCrypto2crypto :: bool
  includeGasCosts :: bool
  taxfreeAfterPeriod :: "int option"
  accountForAssetsMovements :: bool
  calculatePastCostBasis :: bool
  taxableLedgerActions :: "string list"
  ethStakingTaxableAfterWithdrawalEnabled :: bool
  costBasisMethod :: CostBasisMethod

definition defaultGeneralSettings :: "Defaults \<Rightarrow> 'currency \<Rightarrow> 'currency GeneralSettings" where
  "defaultGeneralSettings defaults currency =
     \<lparr>uiFloatingPrecision = FLOATING_PRECISION defaults,
      ksmRpcEndpoint = KSM_RPC_ENDPOINT defaults,
      dotRpcEndpoint = DOT_RPC_ENDPOINT defaults,
      balanceSaveFrequency = BALANCE_SAVE_FREQUENCY defaults,
      dateDisplayFormat = DEFAULT_DATE_DISPLAY_FORMAT defaults,
      submitUsageAnalytics = ANONYMOUS_USAGE_ANALYTICS defaults,
      mainCurrency = currency,
      activeModules = [],
      btcDerivationGapLimit = BTC_DERIVATION_GAP_LIMIT defaults,
      displayDateInLocaltime = DISPLAY_DATE_IN_LOCALTIME defaults,
      currentPriceOracles = [],
      historicalPriceOracles = [],
      ssfGraphMultiplier = 0,
      inferZeroTimedBalances = False,
      nonSyncingExchanges = [],
      treatEth2AsEth = False,
      addressNamePriority = []\<rparr>"

definition defaultAccountingSettings :: "unit \<Rightarrow> AccountingSettings" where
  "defaultAccountingSettings u =
     \<lparr>pnlCsvHaveSummary = False,
      pnlCsvWithFormulas = True,
      includeCrypto2crypto = True,
      includeGasCosts = True,
      taxfreeAfterPeriod = None,
      accountForAssetsMovements = True,
      calculatePastCostBasis = True,
      taxableLedgerActions = [],
      ethStakingTaxableAfterWithdrawalEnabled = False,
      costBasisMethod = FIFO\<rparr>"

section \<open>NftGallery: pagination\<close>

text \<open>\<open>itemsPerPage\<close> depends on the display's breakpoint name and width.\<close>

definition itemsPerPage :: "string \<Rightarrow> int \<Rightarrow> int" where
  "itemsPerPage breakpoint width =
     (if breakpoint = ''xs'' then 1
      else if breakpoint = ''sm'' then 2
      else if width \<ge> 1600 then 10
      else 8)"

text \<open>\<open>Math.ceil(items.length / itemsPerPage)\<close>, the quotient of the two numbers being
  exact as a rational; \<open>shown\<close> is the value of \<open>items\<close>.\<close>

definition pages :: "'a list \<Rightarrow> int \<Rightarrow> int" where
  "pages shown perPage = \<lceil>(of_nat (length shown) :: rat) / of_int perPage\<rceil>"

definition visibleNfts :: "'a list \<Rightarrow> int \<Rightarrow> int \<Rightarrow> 'a list" where
  "visibleNfts shown page perPage =
     (let start = (page - 1) * perPage
      in slice shown start (Some (start + perPage)))"

section \<open>Zod schemas (library)\<close>

text \<open>A JavaScript value as the schemas see it: \<open>undefined\<close>, \<open>null\<close>, a boolean, a number,
  a string, an array, or a plain object (its own properties, a key at most once).\<close>

datatype jsValue =
    JUndefined | JNull | JBoolean bool | JNumber rat | JString string
  | JArray "jsValue list" | JObject "(string \<times> jsValue) list"

text \<open>The schema constructors the declarations use: \<open>z.string()\<close>, \<open>.nullish()\<close>,
  \<open>z.object({...})\<close> and \<open>z.array(...)\<close>.\<close>

datatype ZodType =
    ZodString | ZodNullish ZodType | ZodObject "(string \<times> ZodType) list"
  | ZodArray ZodType

text \<open>A failed parse throws a \<open>ZodError\<close>.\<close>

datatype ZodError = ZodError

text \<open>Reading a property: \<open>undefined\<close> when the object has no such key.\<close>

definition property :: "(string \<times> jsValue) list \<Rightarrow> string \<Rightarrow> jsValue" where
  "property props key = (case map_of props key of None \<Rightarrow> JUndefined | Some v \<Rightarrow> v)"

text \<open>The results of the parts: the first failure, or all the parsed values.\<close>

fun collect :: "(ZodError + 'a) list \<Rightarrow> ZodError + 'a list" where
  "collect [] = Inr []"
| "collect (Inl e # rs) = Inl e"
| "collect (Inr v # rs) = (case collect rs of Inl e \<Rightarrow> Inl e | Inr vs \<Rightarrow> Inr (v # vs))"

text \<open>
  \<open>schema.parse(v)\<close>. A string schema accepts strings; a nullish schema accepts
  \<open>undefined\<close> and \<open>null\<close> and otherwise what its inner schema accepts; an array schema
  accepts an array whose elements the element schema accepts; an object schema accepts a
  plain object when each key of the shape, read from the object, is accepted by its
  schema, and returns the parsed keys of the shape (unknown keys are stripped; a key
  whose value is \<open>undefined\<close> is kept only if the object has it).
\<close>

fun parse :: "ZodType \<Rightarrow> jsValue \<Rightarrow> ZodError + jsValue" where
  "parse ZodString v = (case v of JString s \<Rightarrow> Inr v | _ \<Rightarrow> Inl ZodError)"
| "parse (ZodNullish t) v = (if v = JUndefined \<or> v = JNull then Inr v else parse t v)"
| "parse (ZodArray t) v =
     (case v of
        JArray xs \<Rightarrow>
          (case collect (map (parse t) xs) of Inl e \<Rightarrow> Inl e | Inr ys \<Rightarrow> Inr (JArray ys))
      | _ \<Rightarrow> Inl ZodError)"
| "parse (ZodObject shape) v =
     (case v of
        JObject props \<Rightarrow>
          (case collect (map (\<lambda>(key, t). parse t (property props key)) shape) of
             Inl e \<Rightarrow> Inl e
           | Inr vs \<Rightarrow>
               Inr (JObject (filter (\<lambda>(key, x). x \<noteq> JUndefined \<or> key \<in> fst ` set props)
                               (zip (map fst shape) vs))))
      | _ \<Rightarrow> Inl ZodError)"

section \<open>Schemas of the chains API\<close>

definition ChainInfo :: ZodType where
  "ChainInfo = ZodObject [(''name'', ZodString), (''type'', ZodString),
                          (''evmChainName'', ZodNullish ZodString)]"

definition SupportedChains :: ZodType where
  "SupportedChains = ZodArray ChainInfo"

section \<open>Example data\<close>






abbreviation (input) apeNft :: Nft where
  "apeNft \<equiv> \<lparr>tokenIdentifier = ''nft1'', NftData.name = Some ''Ape'',
      collection = \<lparr>NftCollectionInfo.name = Some ''Apes''\<rparr>,
      priceEth = 2, Nft.priceUsd = 4000\<rparr>"

abbreviation (input) apeEthPrice :: NftPrice where
  "apeEthPrice \<equiv> \<lparr>NftPrice.asset = ''nft1'', manuallyInput = False,
      NftPrice.priceAsset = ''ETH'', NftPrice.priceInAsset = 1, usdPrice = 2000\<rparr>"

abbreviation (input) apeManualPrice :: NftPrice where
  "apeManualPrice \<equiv> \<lparr>NftPrice.asset = ''nft1'', manuallyInput = True,
      NftPrice.priceAsset = ''USD'', NftPrice.priceInAsset = 50, usdPrice = 50\<rparr>"

abbreviation (input) otherManualPrice :: NftPrice where
  "otherManualPrice \<equiv> \<lparr>NftPrice.asset = ''nft2'', manuallyInput = True,
      NftPrice.priceAsset = ''DAI'', NftPrice.priceInAsset = 7, usdPrice = 7\<rparr>"

section \<open>Facts about the library operations\<close>

lemma findIndex_range: "-1 \<le> findIndex P xs \<and> findIndex P xs < int (length xs)"
  by (induction xs) (auto simp: Let_def)

lemma findIndex_none: "findIndex P xs < 0 \<longleftrightarrow> (\<forall>x \<in> set xs. \<not> P x)"
  by (induction xs) (auto simp: Let_def)

lemma findIndex_none_eq: "(\<forall>x \<in> set xs. \<not> P x) \<Longrightarrow> findIndex P xs = -1"
  by (induction xs) (auto simp: Let_def)

lemma findIndex_first:
  "0 \<le> findIndex P xs \<Longrightarrow>
     P (xs ! nat (findIndex P xs)) \<and> (\<forall>j < nat (findIndex P xs). \<not> P (xs ! j))"
proof (induction xs)
  case Nil
  then show ?case by simp
next
  case (Cons x xs)
  show ?case
  proof (cases "P x")
    case True
    then show ?thesis by simp
  next
    case False
    with Cons.prems have nonneg: "0 \<le> findIndex P xs"
      by (simp add: Let_def split: if_splits)
    with False have idx: "findIndex P (x # xs) = findIndex P xs + 1"
      by (simp add: Let_def)
    from nonneg have n: "nat (findIndex P xs + 1) = Suc (nat (findIndex P xs))"
      by simp
    from Cons.IH [OF nonneg] False show ?thesis
      unfolding idx n by (auto simp: less_Suc_eq_0_disj)
  qed
qed

lemma findIndex_split:
  "0 \<le> findIndex P xs \<Longrightarrow>
     \<exists>pre x post. xs = pre @ x # post \<and> P x \<and> (\<forall>y \<in> set pre. \<not> P y)
        \<and> length pre = nat (findIndex P xs)"
proof (induction xs)
  case Nil
  then show ?case by simp
next
  case (Cons x xs)
  show ?case
  proof (cases "P x")
    case True
    then have "x # xs = [] @ x # xs \<and> P x \<and> (\<forall>y \<in> set []. \<not> P y)
        \<and> length ([]::'a list) = nat (findIndex P (x # xs))"
      by simp
    then show ?thesis by blast
  next
    case False
    with Cons.prems have nonneg: "0 \<le> findIndex P xs"
      by (simp add: Let_def split: if_splits)
    with False have idx: "findIndex P (x # xs) = findIndex P xs + 1"
      by (simp add: Let_def)
    from Cons.IH [OF nonneg] obtain pre y post where
      s: "xs = pre @ y # post" "P y" "\<forall>z \<in> set pre. \<not> P z"
         "length pre = nat (findIndex P xs)"
      by blast
    from s False nonneg have "x # xs = (x # pre) @ y # post \<and> P y
        \<and> (\<forall>z \<in> set (x # pre). \<not> P z)
        \<and> length (x # pre) = nat (findIndex P (x # xs))"
      unfolding idx by simp
    then show ?thesis by blast
  qed
qed

lemma relativeIndex_nonneg: "0 \<le> i \<Longrightarrow> relativeIndex len i = min (nat i) len"
  by (simp add: relativeIndex_def)

lemma slice_prefix: "0 \<le> i \<Longrightarrow> slice xs 0 (Some i) = take (nat i) xs"
  by (simp add: slice_def relativeIndex_def min_def Let_def)

lemma slice_suffix: "0 \<le> i \<Longrightarrow> slice xs i None = drop (nat i) xs"
  by (simp add: slice_def relativeIndex_def min_def Let_def)

lemma slice_minus_one: "slice xs 0 (Some (-1)) = butlast xs"
proof -
  have "nat (max (int (length xs) - 1) 0) = length xs - 1"
    by (cases xs) simp_all
  then show ?thesis
    by (simp add: slice_def relativeIndex_def butlast_conv_take)
qed

section \<open>UnderlyingTokenManager: list upsert and delete\<close>

lemma addToken_found:
  assumes "0 \<le> findIndex (\<lambda>t. address t = a) tokens"
  shows "addToken tokens a k w =
           tokens[nat (findIndex (\<lambda>t. address t = a) tokens) :=
                    \<lparr>address = a, tokenKind = k, weight = w\<rparr>]"
  using assms by (simp add: addToken_def)

lemma addToken_absent:
  assumes "\<forall>t \<in> set tokens. address t \<noteq> a"
  shows "addToken tokens a k w = tokens @ [\<lparr>address = a, tokenKind = k, weight = w\<rparr>]"
  using findIndex_none_eq [of tokens "\<lambda>t. address t = a"] assms
  by (simp add: addToken_def)

lemma addToken_count:
  "length (filter (\<lambda>t. address t = a) (addToken tokens a k w)) =
     max 1 (length (filter (\<lambda>t. address t = a) tokens))"
proof (cases "0 \<le> findIndex (\<lambda>t. address t = a) tokens")
  case True
  from findIndex_split [OF True] obtain pre x post where
    s: "tokens = pre @ x # post" "address x = a" "\<forall>y \<in> set pre. address y \<noteq> a"
       "length pre = nat (findIndex (\<lambda>t. address t = a) tokens)"
    by blast
  have "addToken tokens a k w = pre @ \<lparr>address = a, tokenKind = k, weight = w\<rparr> # post"
    using addToken_found [OF True] s(1) s(4) by (metis list_update_length)
  with s show ?thesis by simp
next
  case False
  then have none: "\<forall>t \<in> set tokens. address t \<noteq> a"
    using findIndex_none [of "\<lambda>t. address t = a" tokens] by simp
  then have "filter (\<lambda>t. address t = a) tokens = []"
    by (simp add: filter_empty_conv)
  with addToken_absent [OF none] show ?thesis by simp
qed

text \<open>
  C4 (as the code has it). When some token already has the entered address, the first
  such token is replaced in place by the entered token and the length is unchanged;
  otherwise the entered token is appended and the length grows by one. The emitted list
  holds \<open>max 1 n\<close> tokens with the entered address, \<open>n\<close> being their number in the original
  list: exactly one whenever the original list held at most one.
\<close>

theorem addToken_upsert:
  fixes tokens :: "UnderlyingToken list"
  defines "tok a k w \<equiv> \<lparr>address = a, tokenKind = k, weight = w\<rparr>"
  shows "((\<exists>t \<in> set tokens. address t = a) \<longrightarrow>
            (\<exists>i < length tokens. address (tokens ! i) = a
               \<and> (\<forall>j < i. address (tokens ! j) \<noteq> a)
               \<and> addToken tokens a k w = tokens[i := tok a k w])
            \<and> length (addToken tokens a k w) = length tokens)
       \<and> ((\<forall>t \<in> set tokens. address t \<noteq> a) \<longrightarrow>
            addToken tokens a k w = tokens @ [tok a k w]
            \<and> length (addToken tokens a k w) = length tokens + 1)
       \<and> (length (filter (\<lambda>t. address t = a) tokens) \<le> 1 \<longrightarrow>
            length (filter (\<lambda>t. address t = a) (addToken tokens a k w)) = 1)"
proof (intro conjI impI)
  assume ex: "\<exists>t \<in> set tokens. address t = a"
  let ?i = "findIndex (\<lambda>t. address t = a) tokens"
  from ex have found: "0 \<le> ?i"
    using findIndex_none [of "\<lambda>t. address t = a" tokens] by auto
  have "nat ?i < length tokens"
    using findIndex_range [of "\<lambda>t. address t = a" tokens] found by linarith
  moreover have "address (tokens ! nat ?i) = a" "\<forall>j < nat ?i. address (tokens ! j) \<noteq> a"
    using findIndex_first [OF found] by auto
  moreover have "addToken tokens a k w = tokens[nat ?i := tok a k w]"
    using addToken_found [OF found] by (simp add: tok_def)
  ultimately show "\<exists>i < length tokens. address (tokens ! i) = a
       \<and> (\<forall>j < i. address (tokens ! j) \<noteq> a)
       \<and> addToken tokens a k w = tokens[i := tok a k w]"
    by blast
  show "length (addToken tokens a k w) = length tokens"
    using addToken_found [OF found] by simp
next
  assume none: "\<forall>t \<in> set tokens. address t \<noteq> a"
  show "addToken tokens a k w = tokens @ [tok a k w]"
    using addToken_absent [OF none] by (simp add: tok_def)
  show "length (addToken tokens a k w) = length tokens + 1"
    using addToken_absent [OF none] by simp
next
  assume "length (filter (\<lambda>t. address t = a) tokens) \<le> 1"
  then show "length (filter (\<lambda>t. address t = a) (addToken tokens a k w)) = 1"
    using addToken_count [of a tokens k w] by simp
qed

theorem addToken_upsert_witness:
  "(\<exists>t \<in> set [\<lparr>address = ''0xA'', tokenKind = ''erc20'', weight = ''40''\<rparr>,
                 \<lparr>address = ''0xB'', tokenKind = ''erc20'', weight = ''60''\<rparr>].
        address t = ''0xB'')
   \<and> addToken [\<lparr>address = ''0xA'', tokenKind = ''erc20'', weight = ''40''\<rparr>,
                \<lparr>address = ''0xB'', tokenKind = ''erc20'', weight = ''60''\<rparr>]
        ''0xB'' ''erc721'' ''70''
      = [\<lparr>address = ''0xA'', tokenKind = ''erc20'', weight = ''40''\<rparr>,
         \<lparr>address = ''0xB'', tokenKind = ''erc721'', weight = ''70''\<rparr>]
   \<and> ''0xC'' \<notin> set (map address
        [\<lparr>address = ''0xA'', tokenKind = ''erc20'', weight = ''40''\<rparr>])
   \<and> addToken [\<lparr>address = ''0xA'', tokenKind = ''erc20'', weight = ''40''\<rparr>]
        ''0xC'' ''erc20'' ''5''
      = [\<lparr>address = ''0xA'', tokenKind = ''erc20'', weight = ''40''\<rparr>,
         \<lparr>address = ''0xC'', tokenKind = ''erc20'', weight = ''5''\<rparr>]
   \<and> length (filter (\<lambda>t. address t = ''0xC'')
        [\<lparr>address = ''0xA'', tokenKind = ''erc20'', weight = ''40''\<rparr>]) \<le> 1
   \<and> length (filter (\<lambda>t. address t = ''0xC'')
        (addToken [\<lparr>address = ''0xA'', tokenKind = ''erc20'', weight = ''40''\<rparr>]
           ''0xC'' ''erc20'' ''5'')) = 1"
  using addToken_upsert [of "[\<lparr>address = ''0xA'', tokenKind = ''erc20'', weight = ''40''\<rparr>,
                 \<lparr>address = ''0xB'', tokenKind = ''erc20'', weight = ''60''\<rparr>]"
          "''0xB''" "''erc721''" "''70''"]
        addToken_upsert [of "[\<lparr>address = ''0xA'', tokenKind = ''erc20'', weight = ''40''\<rparr>]"
          "''0xC''" "''erc20''" "''5''"]
  by (simp add: addToken_def)

text \<open>
  C4 as stated fails on a list that already holds the entered address twice: only the
  first of the two is replaced, and both remain in the emitted list.
\<close>

theorem addToken_duplicate_counterexample:
  "map address
     (addToken [\<lparr>address = ''0xA'', tokenKind = ''erc20'', weight = ''40''\<rparr>,
                \<lparr>address = ''0xA'', tokenKind = ''erc20'', weight = ''60''\<rparr>]
        ''0xA'' ''erc20'' ''50'')
   = [''0xA'', ''0xA'']"
  by (simp add: addToken_def)

text \<open>
  C5. \<open>deleteToken\<close> emits a list with no token of the given address; every other token
  of the original list is kept, as often as it occurred, and in its original relative
  order (the emitted list is a subsequence of the original).
\<close>

theorem deleteToken_frame:
  "(\<forall>t \<in> set (deleteToken tokens addr). address t \<noteq> addr)
   \<and> mset (deleteToken tokens addr) = filter_mset (\<lambda>t. address t \<noteq> addr) (mset tokens)
   \<and> subseq (deleteToken tokens addr) tokens"
  by (simp add: deleteToken_def)

theorem deleteToken_frame_witness:
  "deleteToken [\<lparr>address = ''0xA'', tokenKind = ''erc20'', weight = ''40''\<rparr>,
                \<lparr>address = ''0xB'', tokenKind = ''erc20'', weight = ''35''\<rparr>,
                \<lparr>address = ''0xC'', tokenKind = ''erc721'', weight = ''25''\<rparr>] ''0xB''
     = [\<lparr>address = ''0xA'', tokenKind = ''erc20'', weight = ''40''\<rparr>,
        \<lparr>address = ''0xC'', tokenKind = ''erc721'', weight = ''25''\<rparr>]
   \<and> ''0xB'' \<notin> set (map address
        (deleteToken [\<lparr>address = ''0xA'', tokenKind = ''erc20'', weight = ''40''\<rparr>,
                \<lparr>address = ''0xB'', tokenKind = ''erc20'', weight = ''35''\<rparr>,
                \<lparr>address = ''0xC'', tokenKind = ''erc721'', weight = ''25''\<rparr>] ''0xB''))"
  using deleteToken_frame [of "[\<lparr>address = ''0xA'', tokenKind = ''erc20'', weight = ''40''\<rparr>,
                \<lparr>address = ''0xB'', tokenKind = ''erc20'', weight = ''35''\<rparr>,
                \<lparr>address = ''0xC'', tokenKind = ''erc721'', weight = ''25''\<rparr>]" "''0xB''"]
  by (simp add: deleteToken_def)

section \<open>TagFilter: removing a tag\<close>

lemma remove_present:
  assumes "tag \<in> set tags"
  shows "\<exists>pre post. tags = pre @ tag # post \<and> tag \<notin> set pre \<and> remove tags tag = pre @ post"
proof -
  let ?i = "findIndex (\<lambda>y. y = tag) tags"
  from assms have found: "0 \<le> ?i"
    using findIndex_none [of "\<lambda>y. y = tag" tags] by auto
  from findIndex_split [OF found] obtain pre x post where
    s: "tags = pre @ x # post" "x = tag" "\<forall>y \<in> set pre. y \<noteq> tag" "length pre = nat ?i"
    by blast
  from found have n: "nat (?i + 1) = Suc (nat ?i)"
    by simp
  have "remove tags tag = take (nat ?i) tags @ drop (Suc (nat ?i)) tags"
    using found n by (simp add: remove_def indexOf_def slice_prefix slice_suffix Let_def)
  also have "\<dots> = pre @ post"
    using s(1) s(4) by simp
  finally have "remove tags tag = pre @ post" .
  with s show ?thesis by blast
qed

lemma remove_absent:
  assumes "tag \<notin> set tags"
  shows "indexOf tags tag = -1" and "remove tags tag = butlast tags @ tags"
proof -
  from assms show idx: "indexOf tags tag = -1"
    unfolding indexOf_def by (intro findIndex_none_eq) auto
  have "slice tags 0 None = tags"
    using slice_suffix [of 0 tags] by simp
  then show "remove tags tag = butlast tags @ tags"
    by (simp add: remove_def idx slice_minus_one)
qed

text \<open>
  C9 (as the code has it). When the tag occurs in the list, \<open>remove\<close> emits the list
  without the first occurrence of the tag, every other element unchanged and in order.
  When the tag is absent, \<open>indexOf\<close> returns \<open>-1\<close> and the emitted list is the list
  without its last element followed by the whole list; that differs from the original
  list exactly when the list has two elements or more.
\<close>

theorem remove_first_occurrence:
  "(tag \<in> set tags \<longrightarrow>
      remove tags tag = remove1 tag tags
      \<and> (\<exists>pre post. tags = pre @ tag # post \<and> tag \<notin> set pre \<and> remove tags tag = pre @ post))
   \<and> (tag \<notin> set tags \<longrightarrow>
      indexOf tags tag = -1
      \<and> remove tags tag = butlast tags @ tags
      \<and> (remove tags tag \<noteq> tags \<longleftrightarrow> 2 \<le> length tags))"
proof (intro conjI impI)
  assume mem: "tag \<in> set tags"
  from remove_present [OF mem] obtain pre post where
    s: "tags = pre @ tag # post" "tag \<notin> set pre" "remove tags tag = pre @ post"
    by blast
  have "remove1 tag tags = pre @ post"
    using s(1) s(2) by (simp add: remove1_append)
  with s(3) show "remove tags tag = remove1 tag tags" by simp
  from s show "\<exists>pre post. tags = pre @ tag # post \<and> tag \<notin> set pre \<and> remove tags tag = pre @ post"
    by blast
next
  assume absent: "tag \<notin> set tags"
  show "indexOf tags tag = -1"
    by (rule remove_absent(1) [OF absent])
  show eq: "remove tags tag = butlast tags @ tags"
    by (rule remove_absent(2) [OF absent])
  have "butlast tags @ tags \<noteq> tags \<longleftrightarrow> butlast tags \<noteq> []"
    by simp
  also have "\<dots> \<longleftrightarrow> 2 \<le> length tags"
    by (cases tags rule: rev_cases) (auto simp: Suc_le_eq)
  finally show "remove tags tag \<noteq> tags \<longleftrightarrow> 2 \<le> length tags"
    unfolding eq .
qed

theorem remove_first_occurrence_witness:
  "''defi'' \<in> set [''nft'', ''defi'', ''cold'', ''defi'']
   \<and> remove [''nft'', ''defi'', ''cold'', ''defi''] ''defi'' = [''nft'', ''cold'', ''defi'']
   \<and> ''hot'' \<notin> set [''nft'', ''defi'']
   \<and> remove [''nft'', ''defi''] ''hot'' = [''nft'', ''nft'', ''defi'']"
  using remove_first_occurrence [of "''defi''" "[''nft'', ''defi'', ''cold'', ''defi'']"]
        remove_first_occurrence [of "''hot''" "[''nft'', ''defi'']"]
  by simp

text \<open>
  C9 as stated says that an absent tag always changes the list. On a one-element list
  it does not: the emitted list is the original list.
\<close>

theorem remove_absent_counterexample:
  "''hot'' \<notin> set [''nft''] \<and> indexOf [''nft''] ''hot'' = -1 \<and> remove [''nft''] ''hot'' = [''nft'']"
  by (simp add: remove_def indexOf_def slice_def relativeIndex_def)

section \<open>Default-settings factories\<close>

text \<open>
  C6. For every main currency \<open>c\<close> (and whatever the constants of \<open>Defaults\<close> are),
  \<open>defaultGeneralSettings c\<close> has \<open>mainCurrency = c\<close> and empty \<open>activeModules\<close>,
  \<open>currentPriceOracles\<close>, \<open>historicalPriceOracles\<close>, \<open>nonSyncingExchanges\<close> and
  \<open>addressNamePriority\<close>; \<open>defaultAccountingSettings()\<close> has \<open>costBasisMethod\<close> FIFO,
  \<open>taxfreeAfterPeriod\<close> null, \<open>pnlCsvHaveSummary\<close> false and \<open>pnlCsvWithFormulas\<close> true,
  and any two calls return equal values.
\<close>

theorem default_settings_factories:
  "mainCurrency (defaultGeneralSettings defaults c) = c
   \<and> activeModules (defaultGeneralSettings defaults c) = []
   \<and> currentPriceOracles (defaultGeneralSettings defaults c) = []
   \<and> historicalPriceOracles (defaultGeneralSettings defaults c) = []
   \<and> nonSyncingExchanges (defaultGeneralSettings defaults c) = []
   \<and> addressNamePriority (defaultGeneralSettings defaults c) = []
   \<and> costBasisMethod (defaultAccountingSettings u) = FIFO
   \<and> taxfreeAfterPeriod (defaultAccountingSettings u) = None
   \<and> pnlCsvHaveSummary (defaultAccountingSettings u) = False
   \<and> pnlCsvWithFormulas (defaultAccountingSettings u) = True
   \<and> defaultAccountingSettings u = defaultAccountingSettings v"
  by (simp add: defaultGeneralSettings_def defaultAccountingSettings_def)

section \<open>Sorting with a comparator\<close>

lemma sortWith_Cons: "sortWith c (x # xs) = insertSorted c x (sortWith c xs)"
  by (simp add: sortWith_def)

lemma mset_insertSorted: "mset (insertSorted c x ys) = add_mset x (mset ys)"
  by (induction ys) simp_all

lemma mset_sortWith: "mset (sortWith c xs) = mset xs"
proof (induction xs)
  case Nil
  show ?case by (simp add: sortWith_def)
next
  case (Cons x xs)
  then show ?case by (simp add: sortWith_Cons mset_insertSorted)
qed



lemma length_sortWith: "length (sortWith c xs) = length xs"
  using mset_sortWith [of c xs] by (metis size_mset)







section \<open>Overview: assets by descending value\<close>



section \<open>NftGallery: pages partition the items\<close>

lemma slice_window:
  assumes "0 \<le> s" and "s \<le> e"
  shows "slice xs s (Some e) = take (nat e - nat s) (drop (nat s) xs)"
proof (cases "nat e \<le> length xs")
  case True
  with assms show ?thesis
    by (simp add: slice_def relativeIndex_def Let_def min_def)
next
  case False
  with assms show ?thesis
    by (cases "nat s \<le> length xs") (simp_all add: slice_def relativeIndex_def Let_def min_def)
qed

lemma visibleNfts_window:
  assumes "1 \<le> p" and "0 < k"
  shows "visibleNfts shown p k = take (nat k) (drop (nat (p - 1) * nat k) shown)"
proof -
  from assms have s: "0 \<le> (p - 1) * k" and e: "(p - 1) * k \<le> (p - 1) * k + k"
    by simp_all
  from assms have n: "nat ((p - 1) * k) = nat (p - 1) * nat k"
    by (simp add: nat_mult_distrib)
  from assms s have d: "nat ((p - 1) * k + k) - nat (p - 1) * nat k = nat k"
    by (simp add: nat_add_distrib nat_mult_distrib)
  have "visibleNfts shown p k =
          take (nat ((p - 1) * k + k) - nat ((p - 1) * k)) (drop (nat ((p - 1) * k)) shown)"
    by (simp add: visibleNfts_def Let_def slice_window [OF s e])
  then show ?thesis
    by (simp only: n d)
qed

lemma pages_bounds:
  assumes "0 < k"
  shows "(pages shown k - 1) * k < int (length shown)"
    and "int (length shown) \<le> pages shown k * k"
proof -
  let ?x = "(of_nat (length shown) :: rat) / of_int k"
  from assms have kpos: "(0::rat) < of_int k" by simp
  have "of_int (pages shown k) - 1 < ?x" and "?x \<le> of_int (pages shown k)"
    unfolding pages_def by linarith+
  then have "(of_int (pages shown k) - 1) * of_int k < (of_nat (length shown) :: rat)"
    and "(of_nat (length shown) :: rat) \<le> of_int (pages shown k) * of_int k"
    using kpos by (simp_all add: pos_less_divide_eq pos_divide_le_eq)
  then have "(of_int ((pages shown k - 1) * k) :: rat) < of_int (int (length shown))"
    and "(of_int (int (length shown)) :: rat) \<le> of_int (pages shown k * k)"
    by simp_all
  then show "(pages shown k - 1) * k < int (length shown)"
    and "int (length shown) \<le> pages shown k * k"
    by (simp_all only: of_int_less_iff of_int_le_iff)
qed

lemma pages_nonneg:
  assumes "0 < k"
  shows "0 \<le> pages shown k"
proof -
  from assms have "(0::rat) \<le> of_nat (length shown) / of_int k"
    by simp
  then have "(-1::rat) < of_nat (length shown) / of_int k"
    by linarith
  then show ?thesis
    unfolding pages_def by (simp only: zero_le_ceiling)
qed

lemma pages_div:
  assumes "0 < k"
  shows "pages shown k = (int (length shown) + k - 1) div k"
proof -
  let ?P = "pages shown k"
  let ?r = "int (length shown) + k - 1 - k * ?P"
  from pages_bounds [OF assms, of shown]
  have lo: "0 \<le> ?r" and hi: "?r < k"
    by (simp_all add: algebra_simps)
  have "int (length shown) + k - 1 = k * ?P + ?r"
    by simp
  from int_div_pos_eq [OF this lo hi] show ?thesis
    by simp
qed

lemma concat_windows:
  "concat (map (\<lambda>i. take k (drop (i * k) xs)) [0..<m]) = take (m * k) xs"
proof (induction m)
  case 0
  show ?case by simp
next
  case (Suc m)
  have "take (m * k) xs @ take k (drop (m * k) xs) = take (m * k + k) xs"
    by (simp add: take_add)
  with Suc show ?case by (simp add: add.commute)
qed

lemma upto_as_upt: "[1..int m] = map (\<lambda>i. int i + 1) [0..<m]"
proof (induction m)
  case 0
  show ?case by simp
next
  case (Suc m)
  have "[1..int (Suc m)] = [1..int m] @ [int m + 1]"
    using upto_rec2 [of 1 "int (Suc m)"] by (simp add: add.commute)
  with Suc show ?case by simp
qed

lemma concat_pages:
  assumes "0 < k"
  shows "concat (map (\<lambda>p. visibleNfts shown p k) [1..pages shown k]) = shown"
proof -
  define m where "m = nat (pages shown k)"
  have pm: "pages shown k = int m"
    using pages_nonneg [OF assms, of shown] by (simp add: m_def)
  have "map (\<lambda>p. visibleNfts shown p k) [1..int m]
          = map (\<lambda>i. take (nat k) (drop (i * nat k) shown)) [0..<m]"
    using assms by (simp add: upto_as_upt visibleNfts_window o_def)
  then have "concat (map (\<lambda>p. visibleNfts shown p k) [1..int m]) = take (m * nat k) shown"
    by (simp add: concat_windows)
  moreover have "length shown \<le> m * nat k"
  proof -
    from pages_bounds(2) [OF assms, of shown] pm have "int (length shown) \<le> int m * k" by simp
    also have "\<dots> = int (m * nat k)" using assms by simp
    finally show ?thesis by (simp only: of_nat_le_iff)
  qed
  ultimately show ?thesis by (simp add: pm)
qed

lemma visibleNfts_nonempty:
  assumes "0 < k" and "1 \<le> p" and "p \<le> pages shown k"
  shows "visibleNfts shown p k \<noteq> []"
proof -
  from assms have "(p - 1) * k \<le> (pages shown k - 1) * k"
    by (simp add: mult_right_mono)
  also have "\<dots> < int (length shown)"
    by (rule pages_bounds(1) [OF assms(1)])
  finally have "nat (p - 1) * nat k < length shown"
    using assms by (simp add: nat_mult_distrib [symmetric] nat_less_iff)
  with assms(1) show ?thesis
    by (simp add: visibleNfts_window [OF assms(2) assms(1)])
qed

text \<open>
  C3. The number of items per page is 1, 2, 8 or 10. For each of these values \<open>k\<close>: the
  page count is the ceiling of the length of the items list divided by \<open>k\<close> (the least
  \<open>n\<close> with \<open>length \<le> n * k\<close>); for every page \<open>p\<close> from 1 to the page count the visible
  NFTs are the slice of the items from index \<open>(p - 1) * k\<close>, of length at most \<open>k\<close> and
  not empty; and the visible slices of the pages 1 to the page count, concatenated in
  order, are the items list.
\<close>

theorem pagination_partition:
  "itemsPerPage breakpoint width \<in> {1, 2, 8, 10}
   \<and> (k \<in> {1, 2, 8, 10} \<longrightarrow>
        (pages shown k - 1) * k < int (length shown)
        \<and> int (length shown) \<le> pages shown k * k
        \<and> pages shown k = (int (length shown) + k - 1) div k
        \<and> (\<forall>p. 1 \<le> p \<and> p \<le> pages shown k \<longrightarrow>
              visibleNfts shown p k = take (nat k) (drop (nat (p - 1) * nat k) shown)
              \<and> length (visibleNfts shown p k) \<le> nat k
              \<and> visibleNfts shown p k \<noteq> [])
        \<and> concat (map (\<lambda>p. visibleNfts shown p k) [1..pages shown k]) = shown)"
proof (intro conjI impI allI)
  show "itemsPerPage breakpoint width \<in> {1, 2, 8, 10}"
    by (simp add: itemsPerPage_def)
next
  assume "k \<in> {1, 2, 8, 10}"
  then have k: "0 < k" by auto
  show "(pages shown k - 1) * k < int (length shown)"
    by (rule pages_bounds(1) [OF k])
  show "int (length shown) \<le> pages shown k * k"
    by (rule pages_bounds(2) [OF k])
  show "pages shown k = (int (length shown) + k - 1) div k"
    by (rule pages_div [OF k])
  show "concat (map (\<lambda>p. visibleNfts shown p k) [1..pages shown k]) = shown"
    by (rule concat_pages [OF k])
  fix p
  assume p: "1 \<le> p \<and> p \<le> pages shown k"
  then have p1: "1 \<le> p" and p2: "p \<le> pages shown k" by simp_all
  show "visibleNfts shown p k = take (nat k) (drop (nat (p - 1) * nat k) shown)"
    by (rule visibleNfts_window [OF p1 k])
  then show "length (visibleNfts shown p k) \<le> nat k"
    by simp
  show "visibleNfts shown p k \<noteq> []"
    by (rule visibleNfts_nonempty [OF k p1 p2])
qed

theorem pagination_partition_witness:
  "itemsPerPage ''md'' 1920 = 10
   \<and> (2::int) \<in> {1, 2, 8, 10}
   \<and> pages [''a'', ''b'', ''c'', ''d'', ''e''] 2 = 3
   \<and> visibleNfts [''a'', ''b'', ''c'', ''d'', ''e''] 3 2 = [''e'']
   \<and> concat (map (\<lambda>p. visibleNfts [''a'', ''b'', ''c'', ''d'', ''e''] p 2) [1..3])
       = [''a'', ''b'', ''c'', ''d'', ''e'']"
proof -
  have k: "(2::int) \<in> {1, 2, 8, 10}"
    by simp
  note w = pagination_partition [of "''md''" 1920 2 "[''a'', ''b'', ''c'', ''d'', ''e'']",
      THEN conjunct2, THEN mp, OF k]
  from w [THEN conjunct2, THEN conjunct2, THEN conjunct1]
  have pg: "pages [''a'', ''b'', ''c'', ''d'', ''e''] 2 = 3"
    by simp
  note w [THEN conjunct2, THEN conjunct2, THEN conjunct2, THEN conjunct2]
  then have cc: "concat (map (\<lambda>p. visibleNfts [''a'', ''b'', ''c'', ''d'', ''e''] p 2) [1..3])
               = [''a'', ''b'', ''c'', ''d'', ''e'']"
    by (simp only: pg)
  have vis: "visibleNfts [''a'', ''b'', ''c'', ''d'', ''e''] 3 2 = [''e'']"
    by (simp add: visibleNfts_def slice_def relativeIndex_def)
  show ?thesis
    using pg cc vis by (simp add: itemsPerPage_def)
qed

section \<open>NftGallery: price details of the gallery items\<close>

lemma push_loop:
  "foldl (\<lambda>allNfts nft. allNfts @ [f nft]) acc ns = acc @ map f ns"
  by (induction ns arbitrary: acc) simp_all

lemma push_loops:
  "foldl (\<lambda>allNfts (addr, addressNfts).
            foldl (\<lambda>allNfts nft. allNfts @ [f addr nft]) allNfts addressNfts) acc addresses
   = acc @ concat (map (\<lambda>(addr, addressNfts). map (f addr) addressNfts) addresses)"
  by (induction addresses arbitrary: acc) (simp_all add: push_loop split: prod.splits)

lemma nfts_concat:
  "nfts (Some addresses) prices =
     concat (map (\<lambda>(addr, addressNfts). map (galleryNft prices addr) addressNfts) addresses)"
  by (simp add: nfts_def push_loops)

lemma find_first:
  assumes "prices = pre @ p # post" and "\<forall>q \<in> set pre. \<not> P q" and "P p"
  shows "find P prices = Some p"
  using assms(2) unfolding assms(1) by (induction pre) (simp_all add: assms(3))

lemma find_distinct:
  assumes "distinct (map f xs)" and "p \<in> set xs" and "f p = k"
  shows "find (\<lambda>q. f q = k) xs = Some p"
  using assms by (induction xs) (auto simp: image_iff)

lemma galleryNft_data:
  "tokenIdentifier (galleryNft prices addr nft) = tokenIdentifier nft"
  "NftData.name (galleryNft prices addr nft) = NftData.name nft"
  "collection (galleryNft prices addr nft) = collection nft"
  "GalleryNft.address (galleryNft prices addr nft) = addr"
  by (simp_all add: galleryNft_def Let_def)

lemma galleryNft_manual:
  assumes "find (\<lambda>p. NftPrice.asset p = tokenIdentifier nft) prices = Some p" and "manuallyInput p"
  shows "GalleryNft.priceAsset (galleryNft prices addr nft) = NftPrice.priceAsset p"
    and "GalleryNft.priceInAsset (galleryNft prices addr nft) = NftPrice.priceInAsset p"
    and "GalleryNft.priceUsd (galleryNft prices addr nft) = usdPrice p"
  using assms by (simp_all add: galleryNft_def Let_def)

lemma galleryNft_not_manual:
  assumes "find (\<lambda>p. NftPrice.asset p = tokenIdentifier nft) prices = Some p" and "\<not> manuallyInput p"
  shows "GalleryNft.priceAsset (galleryNft prices addr nft) = ''ETH''"
    and "GalleryNft.priceInAsset (galleryNft prices addr nft) = priceEth nft"
    and "GalleryNft.priceUsd (galleryNft prices addr nft) = Nft.priceUsd nft"
  using assms by (simp_all add: galleryNft_def Let_def)

lemma galleryNft_no_price:
  assumes "\<forall>q \<in> set prices. NftPrice.asset q \<noteq> tokenIdentifier nft"
  shows "GalleryNft.priceAsset (galleryNft prices addr nft) = ''ETH''"
    and "GalleryNft.priceInAsset (galleryNft prices addr nft) = priceEth nft"
    and "GalleryNft.priceUsd (galleryNft prices addr nft) = Nft.priceUsd nft"
proof -
  from assms have "find (\<lambda>p. NftPrice.asset p = tokenIdentifier nft) prices = None"
    by (simp add: find_None_iff)
  then show "GalleryNft.priceAsset (galleryNft prices addr nft) = ''ETH''"
    and "GalleryNft.priceInAsset (galleryNft prices addr nft) = priceEth nft"
    and "GalleryNft.priceUsd (galleryNft prices addr nft) = Nft.priceUsd nft"
    by (simp_all add: galleryNft_def Let_def)
qed

text \<open>
  C10 (as the code has it). The gallery NFTs are, account by account and in order, the
  gallery items of the NFTs of the account (none while \<open>perAccount\<close> is \<open>null\<close>). An item
  carries over the NFT's fields other than the prices and has the owning address. Its
  price details are those of the first entry of the price array whose asset is the
  NFT's \<open>tokenIdentifier\<close>, when that entry is marked \<open>manuallyInput\<close>; they are
  \<open>'ETH'\<close>, the NFT's \<open>priceEth\<close> and the NFT's \<open>priceUsd\<close> when that entry is not marked
  or no entry has the asset. When the assets of the price array are distinct, any entry
  with the asset that is marked \<open>manuallyInput\<close> is the one taken.
\<close>

theorem nfts_price_details:
  "nfts None prices = []
   \<and> nfts (Some addresses) prices =
        concat (map (\<lambda>(addr, addressNfts). map (galleryNft prices addr) addressNfts) addresses)
   \<and> tokenIdentifier (galleryNft prices addr nft) = tokenIdentifier nft
   \<and> NftData.name (galleryNft prices addr nft) = NftData.name nft
   \<and> collection (galleryNft prices addr nft) = collection nft
   \<and> GalleryNft.address (galleryNft prices addr nft) = addr
   \<and> (\<forall>pre p post.
         prices = pre @ p # post
         \<and> (\<forall>q \<in> set pre. NftPrice.asset q \<noteq> tokenIdentifier nft)
         \<and> NftPrice.asset p = tokenIdentifier nft \<longrightarrow>
           (manuallyInput p \<longrightarrow>
              GalleryNft.priceAsset (galleryNft prices addr nft) = NftPrice.priceAsset p
              \<and> GalleryNft.priceInAsset (galleryNft prices addr nft) = NftPrice.priceInAsset p
              \<and> GalleryNft.priceUsd (galleryNft prices addr nft) = usdPrice p)
           \<and> (\<not> manuallyInput p \<longrightarrow>
              GalleryNft.priceAsset (galleryNft prices addr nft) = ''ETH''
              \<and> GalleryNft.priceInAsset (galleryNft prices addr nft) = priceEth nft
              \<and> GalleryNft.priceUsd (galleryNft prices addr nft) = Nft.priceUsd nft))
   \<and> ((\<forall>q \<in> set prices. NftPrice.asset q \<noteq> tokenIdentifier nft) \<longrightarrow>
         GalleryNft.priceAsset (galleryNft prices addr nft) = ''ETH''
         \<and> GalleryNft.priceInAsset (galleryNft prices addr nft) = priceEth nft
         \<and> GalleryNft.priceUsd (galleryNft prices addr nft) = Nft.priceUsd nft)
   \<and> (distinct (map NftPrice.asset prices) \<longrightarrow>
         (\<forall>p \<in> set prices. NftPrice.asset p = tokenIdentifier nft \<and> manuallyInput p \<longrightarrow>
            GalleryNft.priceAsset (galleryNft prices addr nft) = NftPrice.priceAsset p
            \<and> GalleryNft.priceInAsset (galleryNft prices addr nft) = NftPrice.priceInAsset p
            \<and> GalleryNft.priceUsd (galleryNft prices addr nft) = usdPrice p))"
proof (intro conjI allI impI ballI)
  show "nfts None prices = []"
    by (simp add: nfts_def)
  show "nfts (Some addresses) prices =
        concat (map (\<lambda>(addr, addressNfts). map (galleryNft prices addr) addressNfts) addresses)"
    by (rule nfts_concat)
  show "tokenIdentifier (galleryNft prices addr nft) = tokenIdentifier nft"
    "NftData.name (galleryNft prices addr nft) = NftData.name nft"
    "collection (galleryNft prices addr nft) = collection nft"
    "GalleryNft.address (galleryNft prices addr nft) = addr"
    by (rule galleryNft_data)+
next
  fix pre p post
  assume first: "prices = pre @ p # post
         \<and> (\<forall>q \<in> set pre. NftPrice.asset q \<noteq> tokenIdentifier nft)
         \<and> NftPrice.asset p = tokenIdentifier nft"
  then have found: "find (\<lambda>p. NftPrice.asset p = tokenIdentifier nft) prices = Some p"
    by (intro find_first [of prices pre p post]) simp_all
  {
    assume m: "manuallyInput p"
    show "GalleryNft.priceAsset (galleryNft prices addr nft) = NftPrice.priceAsset p"
      "GalleryNft.priceInAsset (galleryNft prices addr nft) = NftPrice.priceInAsset p"
      "GalleryNft.priceUsd (galleryNft prices addr nft) = usdPrice p"
      by (rule galleryNft_manual [OF found m])+
  }
  {
    assume m: "\<not> manuallyInput p"
    show "GalleryNft.priceAsset (galleryNft prices addr nft) = ''ETH''"
      "GalleryNft.priceInAsset (galleryNft prices addr nft) = priceEth nft"
      "GalleryNft.priceUsd (galleryNft prices addr nft) = Nft.priceUsd nft"
      by (rule galleryNft_not_manual [OF found m])+
  }
next
  assume none: "\<forall>q \<in> set prices. NftPrice.asset q \<noteq> tokenIdentifier nft"
  show "GalleryNft.priceAsset (galleryNft prices addr nft) = ''ETH''"
    "GalleryNft.priceInAsset (galleryNft prices addr nft) = priceEth nft"
    "GalleryNft.priceUsd (galleryNft prices addr nft) = Nft.priceUsd nft"
    by (rule galleryNft_no_price [OF none])+
next
  fix p
  assume d: "distinct (map NftPrice.asset prices)" and p: "p \<in> set prices"
    and m: "NftPrice.asset p = tokenIdentifier nft \<and> manuallyInput p"
  from m have a: "NftPrice.asset p = tokenIdentifier nft" and mi: "manuallyInput p"
    by simp_all
  note found = find_distinct [OF d p a]
  show "GalleryNft.priceAsset (galleryNft prices addr nft) = NftPrice.priceAsset p"
    "GalleryNft.priceInAsset (galleryNft prices addr nft) = NftPrice.priceInAsset p"
    "GalleryNft.priceUsd (galleryNft prices addr nft) = usdPrice p"
    by (rule galleryNft_manual [OF found mi])+
qed

theorem nfts_price_details_witness:
  "distinct (map NftPrice.asset [otherManualPrice, apeManualPrice])
   \<and> NftPrice.asset apeManualPrice = tokenIdentifier apeNft
   \<and> manuallyInput apeManualPrice
   \<and> nfts (Some [(''0xacc'', [apeNft])]) [otherManualPrice, apeManualPrice]
      = [\<lparr>tokenIdentifier = ''nft1'', NftData.name = Some ''Ape'',
          collection = \<lparr>NftCollectionInfo.name = Some ''Apes''\<rparr>,
          GalleryNft.priceInAsset = 50, GalleryNft.priceAsset = ''USD'',
          GalleryNft.priceUsd = 50, GalleryNft.address = ''0xacc''\<rparr>]
   \<and> nfts (Some [(''0xacc'', [apeNft])]) [otherManualPrice]
      = [\<lparr>tokenIdentifier = ''nft1'', NftData.name = Some ''Ape'',
          collection = \<lparr>NftCollectionInfo.name = Some ''Apes''\<rparr>,
          GalleryNft.priceInAsset = 2, GalleryNft.priceAsset = ''ETH'',
          GalleryNft.priceUsd = 4000, GalleryNft.address = ''0xacc''\<rparr>]"
  using nfts_price_details [of "[otherManualPrice, apeManualPrice]" "[(''0xacc'', [apeNft])]"
          "''0xacc''" apeNft]
        nfts_price_details [of "[otherManualPrice]" "[(''0xacc'', [apeNft])]" "''0xacc''" apeNft]
  by (simp add: galleryNft_def)

text \<open>
  C10 as stated fails when an entry that is not marked \<open>manuallyInput\<close> precedes a marked
  entry for the same asset: the price array holds an entry for the NFT that is marked,
  with price asset \<open>'USD'\<close>, and the gallery item has the \<open>'ETH'\<close> details.
\<close>

theorem nfts_price_details_counterexample:
  "NftPrice.asset apeManualPrice = tokenIdentifier apeNft
   \<and> manuallyInput apeManualPrice
   \<and> NftPrice.priceAsset apeManualPrice = ''USD''
   \<and> map GalleryNft.priceAsset (nfts (Some [(''0xacc'', [apeNft])]) [apeEthPrice, apeManualPrice])
       = [''ETH'']"
  by (simp add: nfts_def galleryNft_def)

section \<open>NftGallery: the comparator\<close>














section \<open>NftGallery: the filtered and sorted items\<close>













section \<open>Schemas of the chains API: what parses\<close>

lemma collect_Inr: "(\<exists>vs. collect rs = Inr vs) \<longleftrightarrow> (\<forall>r \<in> set rs. \<not> isl r)"
proof (induction rs)
  case Nil
  show ?case by simp
next
  case (Cons r rs)
  then show ?case by (cases r) (auto split: sum.splits)
qed

lemma parse_error: "isl (parse t v) \<Longrightarrow> parse t v = Inl ZodError"
  by (cases "parse t v") (auto intro: ZodError.exhaust)

lemma parse_ZodString: "\<not> isl (parse ZodString v) \<longleftrightarrow> (\<exists>s. v = JString s)"
  by (cases v) simp_all

lemma parse_nullish_string:
  "\<not> isl (parse (ZodNullish ZodString) v) \<longleftrightarrow> v = JUndefined \<or> v = JNull \<or> (\<exists>s. v = JString s)"
  by (cases v) simp_all

lemma parse_ZodArray:
  "\<not> isl (parse (ZodArray t) v) \<longleftrightarrow> (\<exists>xs. v = JArray xs \<and> (\<forall>x \<in> set xs. \<not> isl (parse t x)))"
proof (cases v)
  case (JArray xs)
  have "\<not> isl (case collect (map (parse t) xs) of Inl e \<Rightarrow> Inl e | Inr ys \<Rightarrow> Inr (JArray ys))
        \<longleftrightarrow> (\<exists>vs. collect (map (parse t) xs) = Inr vs)"
    by (cases "collect (map (parse t) xs)") simp_all
  with JArray show ?thesis by (simp add: collect_Inr)
qed simp_all

lemma parse_ChainInfo:
  "\<not> isl (parse ChainInfo v) \<longleftrightarrow>
     (\<exists>props. v = JObject props
        \<and> \<not> isl (parse ZodString (property props ''name''))
        \<and> \<not> isl (parse ZodString (property props ''type''))
        \<and> \<not> isl (parse (ZodNullish ZodString) (property props ''evmChainName'')))"
proof (cases v)
  case (JObject props)
  let ?rs = "map (\<lambda>(key, t). parse t (property props key))
     [(''name'', ZodString), (''type'', ZodString), (''evmChainName'', ZodNullish ZodString)]"
  have "\<not> isl (parse ChainInfo v) \<longleftrightarrow> (\<exists>vs. collect ?rs = Inr vs)"
    unfolding ChainInfo_def JObject by (cases "collect ?rs") simp_all
  also have "\<dots> \<longleftrightarrow> (\<forall>r \<in> set ?rs. \<not> isl r)"
    by (rule collect_Inr)
  finally show ?thesis using JObject by simp
qed (simp_all add: ChainInfo_def)

text \<open>
  C7. Parsing a value with \<open>ChainInfo\<close> succeeds exactly when the value is an object
  whose \<open>name\<close> and \<open>type\<close> are strings and whose \<open>evmChainName\<close> is a string, \<open>null\<close> or
  absent (no such key, or \<open>undefined\<close>); otherwise it fails with the validation error.
  Parsing with \<open>SupportedChains\<close> succeeds exactly when the value is an array each of whose
  elements parses with \<open>ChainInfo\<close>.
\<close>

theorem chains_schemas:
  "(\<not> isl (parse ChainInfo v) \<longleftrightarrow>
      (\<exists>props. v = JObject props
         \<and> (\<exists>s. map_of props ''name'' = Some (JString s))
         \<and> (\<exists>s. map_of props ''type'' = Some (JString s))
         \<and> (map_of props ''evmChainName'' \<in> {None, Some JUndefined, Some JNull}
              \<or> (\<exists>s. map_of props ''evmChainName'' = Some (JString s)))))
   \<and> (isl (parse ChainInfo v) \<longrightarrow> parse ChainInfo v = Inl ZodError)
   \<and> (\<not> isl (parse SupportedChains v) \<longleftrightarrow>
        (\<exists>xs. v = JArray xs \<and> (\<forall>x \<in> set xs. \<not> isl (parse ChainInfo x))))
   \<and> (isl (parse SupportedChains v) \<longrightarrow> parse SupportedChains v = Inl ZodError)"
proof (intro conjI impI)
  have str: "(\<exists>s. property props key = JString s) \<longleftrightarrow> (\<exists>s. map_of props key = Some (JString s))"
    for props key
    by (cases "map_of props key") (simp_all add: property_def)
  have nullish: "property props key = JUndefined \<or> property props key = JNull
        \<or> (\<exists>s. map_of props key = Some (JString s))
      \<longleftrightarrow> map_of props key \<in> {None, Some JUndefined, Some JNull}
        \<or> (\<exists>s. map_of props key = Some (JString s))"
    for props key
    by (cases "map_of props key") (simp_all add: property_def)
  show "\<not> isl (parse ChainInfo v) \<longleftrightarrow>
      (\<exists>props. v = JObject props
         \<and> (\<exists>s. map_of props ''name'' = Some (JString s))
         \<and> (\<exists>s. map_of props ''type'' = Some (JString s))
         \<and> (map_of props ''evmChainName'' \<in> {None, Some JUndefined, Some JNull}
              \<or> (\<exists>s. map_of props ''evmChainName'' = Some (JString s))))"
    unfolding parse_ChainInfo parse_ZodString parse_nullish_string str nullish ..
  show "\<not> isl (parse SupportedChains v) \<longleftrightarrow>
        (\<exists>xs. v = JArray xs \<and> (\<forall>x \<in> set xs. \<not> isl (parse ChainInfo x)))"
    unfolding SupportedChains_def by (rule parse_ZodArray)
next
  assume "isl (parse ChainInfo v)"
  then show "parse ChainInfo v = Inl ZodError" by (rule parse_error)
next
  assume "isl (parse SupportedChains v)"
  then show "parse SupportedChains v = Inl ZodError" by (rule parse_error)
qed

theorem chains_schemas_witness:
  "parse ChainInfo (JObject [(''name'', JString ''Ethereum''), (''type'', JString ''evm''),
        (''evmChainName'', JString ''ethereum''), (''image'', JString ''eth.svg'')])
     = Inr (JObject [(''name'', JString ''Ethereum''), (''type'', JString ''evm''),
        (''evmChainName'', JString ''ethereum'')])
   \<and> \<not> isl (parse ChainInfo (JObject [(''name'', JString ''Bitcoin''), (''type'', JString ''bitcoin'')]))
   \<and> isl (parse ChainInfo (JObject [(''name'', JString ''Bitcoin''), (''type'', JNumber 1)]))
   \<and> parse ChainInfo (JObject [(''name'', JString ''Bitcoin''), (''type'', JNumber 1)]) = Inl ZodError
   \<and> \<not> isl (parse SupportedChains (JArray
        [JObject [(''name'', JString ''Bitcoin''), (''type'', JString ''bitcoin'')]]))
   \<and> parse SupportedChains (JArray
        [JObject [(''name'', JString ''Bitcoin''), (''type'', JString ''bitcoin'')], JNull])
       = Inl ZodError"
proof -
  have parsed: "parse ChainInfo (JObject [(''name'', JString ''Ethereum''), (''type'', JString ''evm''),
        (''evmChainName'', JString ''ethereum''), (''image'', JString ''eth.svg'')])
     = Inr (JObject [(''name'', JString ''Ethereum''), (''type'', JString ''evm''),
        (''evmChainName'', JString ''ethereum'')])"
    by code_simp
  have accepted: "\<not> isl (parse ChainInfo
        (JObject [(''name'', JString ''Bitcoin''), (''type'', JString ''bitcoin'')]))"
    by (rule chains_schemas [THEN conjunct1, THEN iffD2]) simp
  have refused: "isl (parse ChainInfo (JObject [(''name'', JString ''Bitcoin''), (''type'', JNumber 1)]))"
    by code_simp
  have error: "parse ChainInfo (JObject [(''name'', JString ''Bitcoin''), (''type'', JNumber 1)])
      = Inl ZodError"
    by (rule chains_schemas [THEN conjunct2, THEN conjunct1, THEN mp, OF refused])
  have chains: "\<not> isl (parse SupportedChains (JArray
        [JObject [(''name'', JString ''Bitcoin''), (''type'', JString ''bitcoin'')]]))"
    by (rule chains_schemas [THEN conjunct2, THEN conjunct2, THEN conjunct1, THEN iffD2])
       (simp add: accepted)
  have "isl (parse SupportedChains (JArray
        [JObject [(''name'', JString ''Bitcoin''), (''type'', JString ''bitcoin'')], JNull]))"
    by code_simp
  then have noChains: "parse SupportedChains (JArray
        [JObject [(''name'', JString ''Bitcoin''), (''type'', JString ''bitcoin'')], JNull])
       = Inl ZodError"
    by (rule chains_schemas [THEN conjunct2, THEN conjunct2, THEN conjunct2, THEN mp])
  show ?thesis
    by (rule conjI [OF parsed conjI [OF accepted conjI [OF refused conjI [OF error
          conjI [OF chains noChains]]]]])
qed

end
